theory Spec2Isabelle
  imports Main "HOL-Library.Log_Nat" "HOL-Library.Multiset"
begin

section \<open>JavaScript numbers\<close>

text \<open>
  Every \<^verbatim>\<open>number\<close> of the program (quantities, prices, totals, the tax rate and the
  invoice counter) is an IEEE 754 binary64 value.  A finite value is kept as the rational it
  denotes; an arithmetic result is rounded to the nearest value with a 53-bit significand,
  ties to even, with gradual underflow below \<open>2 powi (- 1022)\<close> and overflow to an infinity
  from \<open>2 powi 1024\<close> on.  The sign of zero is not kept: the program never divides and never
  prints a zero's sign, and \<^verbatim>\<open>-0 === 0\<close>.  The binary64 values are the results of
  \<open>round_double\<close>; the facts below hold for every rational under \<open>Fin\<close>, a binary64
  value or not.
\<close>

datatype number = NaN | PosInf | NegInf | Fin rat

definition floor_log2 :: "rat \<Rightarrow> int" where
  "floor_log2 x =
     (if 1 \<le> x then bitlen \<lfloor>x\<rfloor> - 1 else - bitlen (\<lceil>1 / x\<rceil> - 1))"

definition round_half_even :: "rat \<Rightarrow> int" where
  "round_half_even q =
     (let f = \<lfloor>q\<rfloor>; d = q - of_int f
      in if d < 1 / 2 then f else if 1 / 2 < d then f + 1
         else if even f then f else f + 1)"

definition round_pos :: "rat \<Rightarrow> number" where
  "round_pos x =
     (let e = max (floor_log2 x) (- 1022);
          u = 2 powi (e - 52);
          r = of_int (round_half_even (x / u)) * u
      in if 2 powi 1024 \<le> r then PosInf else Fin r)"

fun js_neg :: "number \<Rightarrow> number" where
  "js_neg NaN = NaN"
| "js_neg PosInf = NegInf"
| "js_neg NegInf = PosInf"
| "js_neg (Fin q) = Fin (- q)"

definition round_double :: "rat \<Rightarrow> number" where
  "round_double x =
     (if x = 0 then Fin 0 else if 0 < x then round_pos x else js_neg (round_pos (- x)))"

text \<open>The operator \<^verbatim>\<open>+\<close> on two numbers.\<close>

fun js_add :: "number \<Rightarrow> number \<Rightarrow> number" where
  "js_add NaN y = NaN"
| "js_add x NaN = NaN"
| "js_add PosInf NegInf = NaN"
| "js_add NegInf PosInf = NaN"
| "js_add PosInf y = PosInf"
| "js_add NegInf y = NegInf"
| "js_add x PosInf = PosInf"
| "js_add x NegInf = NegInf"
| "js_add (Fin a) (Fin b) = round_double (a + b)"

text \<open>The operator \<^verbatim>\<open>*\<close> on two numbers.\<close>

fun js_mul :: "number \<Rightarrow> number \<Rightarrow> number" where
  "js_mul NaN y = NaN"
| "js_mul x NaN = NaN"
| "js_mul PosInf PosInf = PosInf"
| "js_mul PosInf NegInf = NegInf"
| "js_mul NegInf PosInf = NegInf"
| "js_mul NegInf NegInf = PosInf"
| "js_mul PosInf (Fin b) = (if b = 0 then NaN else if 0 < b then PosInf else NegInf)"
| "js_mul NegInf (Fin b) = (if b = 0 then NaN else if 0 < b then NegInf else PosInf)"
| "js_mul (Fin a) PosInf = (if a = 0 then NaN else if 0 < a then PosInf else NegInf)"
| "js_mul (Fin a) NegInf = (if a = 0 then NaN else if 0 < a then NegInf else PosInf)"
| "js_mul (Fin a) (Fin b) = round_double (a * b)"

text \<open>\<^verbatim>\<open>x || 0\<close> on a number: \<^verbatim>\<open>NaN\<close> and zero are falsy.\<close>

definition js_or_zero :: "number \<Rightarrow> number" where
  "js_or_zero x = (if x = NaN \<or> x = Fin 0 then Fin 0 else x)"

section \<open>Strings\<close>

text \<open>
  \<^verbatim>\<open>String.prototype.padStart(n, c)\<close> with a one-character filler: the string is
  returned as it is when it already has \<open>n\<close> characters or more.
\<close>

definition padStart :: "nat \<Rightarrow> char \<Rightarrow> string \<Rightarrow> string" where
  "padStart n c s = replicate (n - length s) c @ s"

fun digits :: "nat \<Rightarrow> string" where
  "digits n =
     (if n < 10 then [''0123456789'' ! n]
      else digits (n div 10) @ [''0123456789'' ! (n mod 10)])"

declare digits.simps [simp del]

definition intToString :: "int \<Rightarrow> string" where
  "intToString k = (if k < 0 then CHR ''-'' # digits (nat (- k)) else digits (nat k))"

text \<open>
  \<^verbatim>\<open>Number.prototype.toString()\<close>.  For a whole number of magnitude up to \<open>2 ^ 53\<close> the
  result is its decimal numeral.  For the other finite values the language prints the
  shortest decimal that reads back as the same number; that part of the built-in is the
  parameter \<open>other\<close>.
\<close>

definition numberToString :: "(rat \<Rightarrow> string) \<Rightarrow> number \<Rightarrow> string" where
  "numberToString other x =
     (case x of
        NaN \<Rightarrow> ''NaN''
      | PosInf \<Rightarrow> ''Infinity''
      | NegInf \<Rightarrow> ''-Infinity''
      | Fin q \<Rightarrow>
          if of_int \<lfloor>q\<rfloor> = q \<and> \<bar>q\<bar> \<le> 2 ^ 53 then intToString \<lfloor>q\<rfloor> else other q)"

section \<open>Data model (types.ts)\<close>

record Customer =
  id_cust :: string
  name :: string
  phone :: string
  whatsapp :: "string option"
  email :: "string option"
  address :: "string option"
  createdAt_cust :: string
  updatedAt_cust :: string

record InvoiceItem =
  id_item :: string
  description :: string
  quantity :: number
  unitPrice :: number
  total_item :: number

datatype InvoiceStatus = Draft | Sent | Paid | Overdue

text \<open>\<^verbatim>\<open>Pick<Invoice, 'subTotal' | 'taxAmount' | 'totalAmount'>\<close>, which \<open>Invoice\<close> extends.\<close>

record Totals =
  subTotal :: number
  taxAmount :: number
  totalAmount :: number

record Invoice = Totals +
  id_inv :: string
  customerId :: string
  customerName :: string
  invoiceDate :: string
  dueDate :: string
  items :: "InvoiceItem list"
  taxRate :: number
  notes_inv :: "string option"
  status :: InvoiceStatus
  createdAt :: string
  updatedAt :: string

record AppSettings =
  invoicePrefix :: string
  nextInvoiceNumber :: number
  defaultTaxRate :: number

datatype NotificationType = Success | Error | Info

record Notification =
  id_notif :: string
  message :: string
  type_notif :: NotificationType

section \<open>Environment\<close>

text \<open>
  What an operation reads from outside the program.  \<open>newDate env k\<close> is the \<open>k\<close>-th
  \<^verbatim>\<open>new Date()\<close> evaluated during the operation, of which the program uses
  \<^verbatim>\<open>toISOString()\<close> and \<^verbatim>\<open>getFullYear()\<close>; \<open>generateId env k\<close> is the result of the
  \<open>k\<close>-th call of \<^verbatim>\<open>generateId\<close>, that is of
  \<^verbatim>\<open>Math.random().toString(36).substr(2, 9)\<close>; \<open>parseFloat\<close> is the built-in, and
  \<open>toStringOther\<close> the part of \<^verbatim>\<open>Number.prototype.toString\<close> described above.
\<close>

record Date =
  toISOString :: string
  getFullYear :: int

record Env =
  newDate :: "nat \<Rightarrow> Date"
  generateId :: "nat \<Rightarrow> string"
  parseFloat :: "string \<Rightarrow> number"
  toStringOther :: "rat \<Rightarrow> string"

section \<open>The App component (App.tsx)\<close>

record AppState =
  customers :: "Customer list"
  invoices :: "Invoice list"
  settings :: AppSettings
  notifications :: "Notification list"

text \<open>
  An operation runs inside one event handler on the committed state: what it reads through
  its closure (\<^verbatim>\<open>customers\<close>, \<^verbatim>\<open>invoices\<close>, \<^verbatim>\<open>settings\<close>) and what its functional
  updates \<^verbatim>\<open>setX(prev => ...)\<close> receive are the same state \<open>st\<close>.  The argument \<open>k\<close> of
  \<open>addNotification\<close> says which call of \<^verbatim>\<open>generateId\<close> of the operation names the
  notification.
\<close>

definition addNotification ::
    "Env \<Rightarrow> nat \<Rightarrow> string \<Rightarrow> NotificationType \<Rightarrow> AppState \<Rightarrow> AppState" where
  "addNotification env k msg ty st =
     st\<lparr>notifications := notifications st @
          [\<lparr>id_notif = generateId env k, message = msg, type_notif = ty\<rparr>]\<rparr>"

subsection \<open>Customer CRUD\<close>

text \<open>
  \<^verbatim>\<open>{ ...customerData, id: ..., createdAt: ..., updatedAt: ... }\<close>: the three fields
  written after the spread replace whatever the argument holds there.
\<close>

definition addCustomer :: "Env \<Rightarrow> Customer \<Rightarrow> AppState \<Rightarrow> AppState" where
  "addCustomer env customerData st =
     (let newCustomer = customerData
            \<lparr>id_cust := generateId env 0,
             createdAt_cust := toISOString (newDate env 0),
             updatedAt_cust := toISOString (newDate env 1)\<rparr>
      in addNotification env 1 ''Customer added successfully'' Success
           (st\<lparr>customers := customers st @ [newCustomer]\<rparr>))"

text \<open>
  \<^verbatim>\<open>prev.map(c => c.id === updatedCustomer.id ? {...updatedCustomer, updatedAt: new
  Date().toISOString()} : c)\<close>: every matching element reads the clock anew; \<open>k\<close> counts the
  readings made so far.
\<close>

fun replaceCustomer :: "Env \<Rightarrow> nat \<Rightarrow> Customer \<Rightarrow> Customer list \<Rightarrow> Customer list" where
  "replaceCustomer env k updatedCustomer [] = []"
| "replaceCustomer env k updatedCustomer (c # cs) =
     (if id_cust c = id_cust updatedCustomer
      then updatedCustomer\<lparr>updatedAt_cust := toISOString (newDate env k)\<rparr>
             # replaceCustomer env (Suc k) updatedCustomer cs
      else c # replaceCustomer env k updatedCustomer cs)"

definition updateCustomer :: "Env \<Rightarrow> Customer \<Rightarrow> AppState \<Rightarrow> AppState" where
  "updateCustomer env updatedCustomer st =
     addNotification env 0 ''Customer updated successfully'' Success
       (st\<lparr>customers := replaceCustomer env 0 updatedCustomer (customers st)\<rparr>)"

definition deleteCustomer :: "Env \<Rightarrow> string \<Rightarrow> AppState \<Rightarrow> AppState" where
  "deleteCustomer env cid st =
     (if list_ex (\<lambda>inv. customerId inv = cid) (invoices st)
      then addNotification env 0 ''Cannot delete customer with existing invoices.'' Error st
      else addNotification env 0 ''Customer deleted successfully'' Success
             (st\<lparr>customers := filter (\<lambda>c. id_cust c \<noteq> cid) (customers st)\<rparr>))"

definition findCustomerById :: "AppState \<Rightarrow> string \<Rightarrow> Customer option" where
  "findCustomerById st cid = find (\<lambda>c. id_cust c = cid) (customers st)"

subsection \<open>Invoice logic\<close>

text \<open>\<^verbatim>\<open>Array.prototype.reduce(f, init)\<close>.\<close>

fun reduce :: "('b \<Rightarrow> 'a \<Rightarrow> 'b) \<Rightarrow> 'b \<Rightarrow> 'a list \<Rightarrow> 'b" where
  "reduce f acc [] = acc"
| "reduce f acc (x # xs) = reduce f (f acc x) xs"

definition calculateInvoiceTotals :: "InvoiceItem list \<Rightarrow> number \<Rightarrow> Totals" where
  "calculateInvoiceTotals its rate =
     (let sub = reduce (\<lambda>sum item. js_add sum (total_item item)) (Fin 0) its;
          tax = js_mul sub rate;
          tot = js_add sub tax
      in \<lparr>subTotal = sub, taxAmount = tax, totalAmount = tot\<rparr>)"

text \<open>
  \<open>getNextInvoiceId env k s\<close>, where the \<open>k\<close>-th clock reading gives the year.  A year is
  a whole number far below \<open>2 ^ 53\<close>, so the template literal prints its decimal numeral.
\<close>

definition getNextInvoiceId :: "Env \<Rightarrow> nat \<Rightarrow> AppSettings \<Rightarrow> string" where
  "getNextInvoiceId env k s =
     (let currentYear = getFullYear (newDate env k);
          invoiceNumberStr =
            padStart 4 CHR ''0'' (numberToString (toStringOther env) (nextInvoiceNumber s))
      in invoicePrefix s @ intToString currentYear @ ''-'' @ invoiceNumberStr)"

text \<open>
  \<open>addInvoice\<close> returns the new id, or \<open>None\<close> for \<^verbatim>\<open>null\<close>.  The fields written after
  \<^verbatim>\<open>...invoiceData\<close> replace whatever the argument holds there, \<open>status\<close> included.
\<close>

definition addInvoice ::
    "Env \<Rightarrow> Invoice \<Rightarrow> InvoiceItem list \<Rightarrow> AppState \<Rightarrow> string option \<times> AppState" where
  "addInvoice env invoiceData its st =
     (case findCustomerById st (customerId invoiceData) of
        None \<Rightarrow> (None, addNotification env 0 ''Customer not found for invoice.'' Error st)
      | Some customer \<Rightarrow>
          (let totals = calculateInvoiceTotals its (taxRate invoiceData);
               newInvoice = invoiceData
                 \<lparr>id_inv := getNextInvoiceId env 0 (settings st),
                  customerName := name customer,
                  items := its,
                  subTotal := subTotal totals,
                  taxAmount := taxAmount totals,
                  totalAmount := totalAmount totals,
                  status := Draft,
                  createdAt := toISOString (newDate env 1),
                  updatedAt := toISOString (newDate env 2)\<rparr>
           in (Some (id_inv newInvoice),
               addNotification env 0
                 (''Invoice '' @ id_inv newInvoice @ '' created successfully'') Success
                 (st\<lparr>invoices := invoices st @ [newInvoice],
                     settings := (settings st)
                       \<lparr>nextInvoiceNumber :=
                          js_add (nextInvoiceNumber (settings st)) (Fin 1)\<rparr>\<rparr>))))"

definition updateInvoice :: "Env \<Rightarrow> Invoice \<Rightarrow> InvoiceItem list \<Rightarrow> AppState \<Rightarrow> AppState" where
  "updateInvoice env updatedInvoiceData its st =
     (case findCustomerById st (customerId updatedInvoiceData) of
        None \<Rightarrow> addNotification env 0 ''Customer not found for invoice.'' Error st
      | Some customer \<Rightarrow>
          (case find (\<lambda>inv. id_inv inv = id_inv updatedInvoiceData) (invoices st) of
             None \<Rightarrow> addNotification env 0 ''Original invoice not found for update.'' Error st
           | Some originalInvoice \<Rightarrow>
               (let totals = calculateInvoiceTotals its (taxRate updatedInvoiceData);
                    updatedInvoice = updatedInvoiceData
                      \<lparr>customerName := name customer,
                       items := its,
                       subTotal := subTotal totals,
                       taxAmount := taxAmount totals,
                       totalAmount := totalAmount totals,
                       updatedAt := toISOString (newDate env 0),
                       createdAt := createdAt originalInvoice\<rparr>
                in addNotification env 0
                     (''Invoice '' @ id_inv updatedInvoice @ '' updated successfully'') Success
                     (st\<lparr>invoices :=
                          map (\<lambda>inv. if id_inv inv = id_inv updatedInvoice
                                      then updatedInvoice else inv) (invoices st)\<rparr>))))"

definition deleteInvoice :: "Env \<Rightarrow> string \<Rightarrow> AppState \<Rightarrow> AppState" where
  "deleteInvoice env invoiceId st =
     addNotification env 0 (''Invoice '' @ invoiceId @ '' deleted successfully'') Success
       (st\<lparr>invoices := filter (\<lambda>inv. id_inv inv \<noteq> invoiceId) (invoices st)\<rparr>)"

subsection \<open>The invoice form: editing a line item\<close>

text \<open>
  The argument \<^verbatim>\<open>value\<close> of \<^verbatim>\<open>handleItemChange\<close> has the type
  \<^verbatim>\<open>string | number\<close> for the fields \<^verbatim>\<open>quantity\<close> and \<^verbatim>\<open>unitPrice\<close>, and the
  field's own type otherwise.
\<close>

datatype FieldValue = StrValue string | NumValue number

datatype ItemEdit =
    EditId string
  | EditDescription string
  | EditQuantity FieldValue
  | EditUnitPrice FieldValue
  | EditTotal number

definition parseIfString :: "Env \<Rightarrow> FieldValue \<Rightarrow> number" where
  "parseIfString env v =
     (case v of
        NumValue n \<Rightarrow> n
      | StrValue s \<Rightarrow>
          (let parsedValue = parseFloat env s
           in if parsedValue = NaN then Fin 0 else parsedValue))"

text \<open>
  The new item list of the form.  The form calls \<^verbatim>\<open>handleItemChange\<close> with the index of
  a rendered row; for an index outside the array the source would store an object that
  lacks the other fields, which is no \<^verbatim>\<open>InvoiceItem\<close>: the model answers \<open>None\<close> there.
\<close>

definition handleItemChange ::
    "Env \<Rightarrow> nat \<Rightarrow> ItemEdit \<Rightarrow> InvoiceItem list \<Rightarrow> InvoiceItem list option" where
  "handleItemChange env index edit its =
     (if index < length its then
        (let old = its ! index;
             changed =
               (case edit of
                  EditId v \<Rightarrow> old\<lparr>id_item := v\<rparr>
                | EditDescription v \<Rightarrow> old\<lparr>description := v\<rparr>
                | EditQuantity v \<Rightarrow> old\<lparr>quantity := parseIfString env v\<rparr>
                | EditUnitPrice v \<Rightarrow> old\<lparr>unitPrice := parseIfString env v\<rparr>
                | EditTotal v \<Rightarrow> old\<lparr>total_item := v\<rparr>)
         in Some (its[index := changed
              \<lparr>total_item :=
                 js_mul (js_or_zero (quantity changed)) (js_or_zero (unitPrice changed))\<rparr>]))
      else None)"

section \<open>Sequences of registry operations\<close>

datatype Op =
    AddCustomer Customer
  | UpdateCustomer Customer
  | DeleteCustomer string
  | AddInvoice Invoice "InvoiceItem list"
  | UpdateInvoice Invoice "InvoiceItem list"
  | DeleteInvoice string

fun step :: "Env \<Rightarrow> Op \<Rightarrow> AppState \<Rightarrow> AppState" where
  "step env (AddCustomer c) st = addCustomer env c st"
| "step env (UpdateCustomer c) st = updateCustomer env c st"
| "step env (DeleteCustomer cid) st = deleteCustomer env cid st"
| "step env (AddInvoice d its) st = snd (addInvoice env d its st)"
| "step env (UpdateInvoice d its) st = updateInvoice env d its st"
| "step env (DeleteInvoice iid) st = deleteInvoice env iid st"

text \<open>Each operation of a run comes with what the environment answers during it.\<close>

fun run :: "(Env \<times> Op) list \<Rightarrow> AppState \<Rightarrow> AppState" where
  "run [] st = st"
| "run ((env, op) # rest) st = run rest (step env op st)"

text \<open>An operation that creates an invoice: \<open>addInvoice\<close> with a customer that resolves.\<close>

fun creates :: "Op \<Rightarrow> AppState \<Rightarrow> bool" where
  "creates (AddInvoice d its) st = (findCustomerById st (customerId d) \<noteq> None)"
| "creates op st = False"

text \<open>The sequence numbers that the creations of a run print into their ids, in order.\<close>

fun issued :: "(Env \<times> Op) list \<Rightarrow> AppState \<Rightarrow> number list" where
  "issued [] st = []"
| "issued ((env, op) # rest) st =
     (if creates op st then [nextInvoiceNumber (settings st)] else [])
       @ issued rest (step env op st)"

text \<open>Item totals that are whole numbers, and their magnitudes.\<close>

definition whole :: "number \<Rightarrow> bool" where
  "whole x = (case x of Fin q \<Rightarrow> of_int \<lfloor>q\<rfloor> = q | _ \<Rightarrow> False)"

definition magnitude :: "number \<Rightarrow> rat" where
  "magnitude x = (case x of Fin q \<Rightarrow> \<bar>q\<bar> | _ \<Rightarrow> 0)"

definition exact :: "number \<Rightarrow> rat" where
  "exact x = (case x of Fin q \<Rightarrow> q | _ \<Rightarrow> 0)"

section \<open>Example data\<close>

text \<open>
  An environment: the clock stands at one instant of 2024, \<^verbatim>\<open>generateId\<close> answers
  \<open>''i''\<close> (what it makes of \<^verbatim>\<open>Math.random() = 0.5\<close>), and \<open>parseFloat\<close> is given on the
  strings that the examples pass to it.
\<close>

definition env0 :: Env where
  "env0 =
     \<lparr>newDate = (\<lambda>k. \<lparr>toISOString = ''2024-05-01T10:00:00.000Z'', getFullYear = 2024\<rparr>),
      generateId = (\<lambda>k. ''i''),
      parseFloat = (\<lambda>s. if s = ''2.5'' then Fin (5 / 2) else NaN),
      toStringOther = (\<lambda>q. [])\<rparr>"

definition acme :: Customer where
  "acme =
     \<lparr>id_cust = ''c1'', name = ''Acme'', phone = ''555-1111'', whatsapp = Some ''555-1111'',
      email = None, address = None,
      createdAt_cust = ''2024-04-01T09:00:00.000Z'',
      updatedAt_cust = ''2024-04-01T09:00:00.000Z''\<rparr>"

definition widget :: InvoiceItem where
  "widget =
     \<lparr>id_item = ''w1'', description = ''Widget'', quantity = Fin 3, unitPrice = Fin 10,
      total_item = Fin 30\<rparr>"

definition gadget :: InvoiceItem where
  "gadget =
     \<lparr>id_item = ''g1'', description = ''Gadget'', quantity = Fin 5, unitPrice = Fin 9,
      total_item = Fin 45\<rparr>"

text \<open>Form data for an invoice; the fields that the operations overwrite are placeholders.\<close>

definition formData :: Invoice where
  "formData =
     \<lparr>subTotal = Fin 0, taxAmount = Fin 0, totalAmount = Fin 0,
      id_inv = ''INV-2024-0001'', customerId = ''c1'', customerName = [],
      invoiceDate = ''2024-05-01'', dueDate = ''2024-05-31'', items = [],
      taxRate = round_double (1 / 10), notes_inv = None, status = Paid,
      createdAt = [], updatedAt = []\<rparr>"

definition strayData :: Invoice where
  "strayData = formData\<lparr>customerId := ''c9''\<rparr>"

text \<open>A stored invoice of Acme.\<close>

definition inv1 :: Invoice where
  "inv1 =
     \<lparr>subTotal = Fin 30, taxAmount = Fin 3, totalAmount = Fin 33,
      id_inv = ''INV-2024-0001'', customerId = ''c1'', customerName = ''Acme'',
      invoiceDate = ''2024-04-02'', dueDate = ''2024-05-02'', items = [widget],
      taxRate = round_double (1 / 10), notes_inv = None, status = Draft,
      createdAt = ''2024-04-02T08:00:00.000Z'', updatedAt = ''2024-04-02T08:00:00.000Z''\<rparr>"

definition st0 :: AppState where
  "st0 =
     \<lparr>customers = [acme], invoices = [],
      settings = \<lparr>invoicePrefix = ''INV-'', nextInvoiceNumber = Fin 1, defaultTaxRate = Fin 0\<rparr>,
      notifications = []\<rparr>"

text \<open>The state \<open>st0\<close> with the counter set to \<open>2 ^ 53\<close> on the settings page.\<close>

definition st53 :: AppState where
  "st53 = st0\<lparr>settings := (settings st0)\<lparr>nextInvoiceNumber := Fin (2 ^ 53)\<rparr>\<rparr>"

text \<open>The state \<open>st0\<close> after the invoice \<open>inv1\<close>, and with a second record of the same id.\<close>

definition st1 :: AppState where
  "st1 = st0\<lparr>invoices := [inv1],
             settings := (settings st0)\<lparr>nextInvoiceNumber := Fin 2\<rparr>\<rparr>"

definition st2 :: AppState where
  "st2 = st1\<lparr>invoices := [inv1, inv1\<lparr>id_inv := ''INV-2024-0002''\<rparr>,
                          inv1\<lparr>status := Paid\<rparr>]\<rparr>"

definition emptyState :: AppState where
  "emptyState = st0\<lparr>customers := []\<rparr>"

text \<open>
  A day at the counter: an invoice is created and then deleted, an update and a creation
  go wrong, and a second invoice is created.
\<close>

definition day :: "(Env \<times> Op) list" where
  "day =
     [(env0, AddInvoice formData [widget]),
      (env0, DeleteInvoice ''INV-2024-0001''),
      (env0, UpdateInvoice formData [gadget]),
      (env0, AddInvoice strayData [widget]),
      (env0, AddInvoice formData [gadget])]"

text \<open>Three line items priced 0.1, 0.2 and 0.3.\<close>

definition tenth :: "rat \<Rightarrow> InvoiceItem" where
  "tenth k =
     \<lparr>id_item = ''t'', description = ''Part'', quantity = Fin 1,
      unitPrice = round_double (k / 10), total_item = round_double (k / 10)\<rparr>"

section \<open>Facts about rounding\<close>

text \<open>\<open>floor_log2 x\<close> is the exponent of the binade of a positive \<open>x\<close>.\<close>

lemma floor_log2_ge1:
  assumes "1 \<le> x"
  shows "2 powi (floor_log2 x) \<le> x \<and> x < 2 powi (floor_log2 x + 1)"
proof -
  let ?n = "\<lfloor>x\<rfloor>"
  have n: "0 < ?n" using assms by simp
  from bitlen_bounds[OF n] have b: "2 ^ nat (bitlen ?n - 1) \<le> ?n" "?n < 2 ^ nat (bitlen ?n)"
    by auto
  have bl: "1 \<le> bitlen ?n" using n by (simp add: bitlen_def floorlog_def)
  have e: "floor_log2 x = bitlen ?n - 1" using assms by (simp add: floor_log2_def)
  have "(2::rat) ^ nat (bitlen ?n - 1) \<le> of_int ?n"
    using b(1) by (metis of_int_le_iff of_int_numeral of_int_power)
  also have "\<dots> \<le> x" by simp
  finally have lo: "2 powi (floor_log2 x) \<le> x"
    using bl by (simp add: e power_int_def)
  have "?n + 1 \<le> 2 ^ nat (bitlen ?n)" using b(2) by simp
  then have "(of_int (?n + 1) :: rat) \<le> 2 ^ nat (bitlen ?n)"
    by (metis of_int_le_iff of_int_numeral of_int_power)
  moreover have "x < of_int (?n + 1)" by linarith
  ultimately have "x < 2 ^ nat (bitlen ?n)" by linarith
  then have hi: "x < 2 powi (floor_log2 x + 1)"
    using bl by (simp add: e power_int_def)
  from lo hi show ?thesis by simp
qed

lemma floor_log2_lt1:
  assumes "0 < x" "x < 1"
  shows "2 powi (floor_log2 x) \<le> x \<and> x < 2 powi (floor_log2 x + 1)"
proof -
  let ?y = "1 / x"
  let ?c = "\<lceil>?y\<rceil>"
  let ?k = "bitlen (?c - 1)"
  have y1: "1 < ?y" using assms by simp
  have c: "0 < ?c - 1" using y1 by linarith
  from bitlen_bounds[OF c] have b: "2 ^ nat (?k - 1) \<le> ?c - 1" "?c - 1 < 2 ^ nat ?k"
    by auto
  have k1: "1 \<le> ?k" using c by (simp add: bitlen_def floorlog_def)
  have e: "floor_log2 x = - ?k" using assms by (simp add: floor_log2_def)
  have "?c \<le> 2 ^ nat ?k" using b(2) by simp
  then have "(of_int ?c :: rat) \<le> 2 ^ nat ?k"
    by (metis of_int_le_iff of_int_numeral of_int_power)
  moreover have "?y \<le> of_int ?c" by simp
  ultimately have yle: "?y \<le> 2 ^ nat ?k" by linarith
  have "(2::rat) ^ nat (?k - 1) \<le> of_int (?c - 1)"
    using b(1) by (metis of_int_le_iff of_int_numeral of_int_power)
  moreover have "of_int (?c - 1) < ?y" by linarith
  ultimately have ygt: "2 ^ nat (?k - 1) < ?y" by linarith
  have xi: "x = inverse ?y" using assms by simp
  have pk: "(2::rat) powi ?k = 2 ^ nat ?k" "(2::rat) powi (?k - 1) = 2 ^ nat (?k - 1)"
    using k1 by (simp_all add: power_int_def)
  have "2 powi (floor_log2 x) = inverse ((2::rat) ^ nat ?k)"
    unfolding e power_int_minus pk ..
  also have "\<dots> \<le> inverse ?y"
    using yle assms(1) by (intro le_imp_inverse_le) auto
  finally have lo: "2 powi (floor_log2 x) \<le> x" using xi by simp
  have "floor_log2 x + 1 = - (?k - 1)" by (simp add: e)
  then have "2 powi (floor_log2 x + 1) = inverse ((2::rat) ^ nat (?k - 1))"
    using pk(2) by (simp only: power_int_minus)
  moreover have "inverse ?y < inverse ((2::rat) ^ nat (?k - 1))"
    using ygt by (intro less_imp_inverse_less) auto
  ultimately have hi: "x < 2 powi (floor_log2 x + 1)" using xi by simp
  from lo hi show ?thesis by simp
qed

lemma floor_log2_bounds:
  assumes "0 < x"
  shows "2 powi (floor_log2 x) \<le> x" and "x < 2 powi (floor_log2 x + 1)"
  using floor_log2_ge1[of x] floor_log2_lt1[of x] assms by (cases "1 \<le> x"; simp)+

lemma floor_log2_eqI:
  assumes "2 powi e \<le> x" "x < 2 powi (e + 1)"
  shows "floor_log2 x = e"
proof -
  have "(0::rat) < 2 powi e" by simp
  then have x: "0 < x" using assms(1) by linarith
  note b = floor_log2_bounds[OF x]
  have "(2::rat) powi e < 2 powi (floor_log2 x + 1)" using assms(1) b(2) by linarith
  then have 1: "e < floor_log2 x + 1"
    using power_int_increasing[of "floor_log2 x + 1" e "2::rat"] by force
  have "(2::rat) powi (floor_log2 x) < 2 powi (e + 1)" using assms(2) b(1) by linarith
  then have 2: "floor_log2 x < e + 1"
    using power_int_increasing[of "e + 1" "floor_log2 x" "2::rat"] by force
  from 1 2 show ?thesis by simp
qed

lemma floor_rat_numeral_div:
  "\<lfloor>(numeral a :: rat) / numeral b\<rfloor> = numeral a div numeral b"
  using floor_divide_of_int_eq[of "numeral a" "numeral b", where ?'a = rat] by simp

lemma round_half_even_of_int [simp]: "round_half_even (of_int k) = k"
  by (simp add: round_half_even_def)

lemma round_half_even_le: "of_int (round_half_even q) \<le> q + 1"
proof -
  have "of_int \<lfloor>q\<rfloor> \<le> q + 1" by linarith
  then show ?thesis by (auto simp: round_half_even_def Let_def)
qed

lemma round_pos_eq:
  assumes "2 powi e \<le> x" "x < 2 powi (e + 1)" "- 1022 \<le> e" "e \<le> 1022"
  shows "round_pos x = Fin (of_int (round_half_even (x / 2 powi (e - 52))) * 2 powi (e - 52))"
proof -
  let ?u = "(2::rat) powi (e - 52)"
  let ?r = "of_int (round_half_even (x / ?u)) * ?u"
  have fl: "floor_log2 x = e" using assms(1,2) by (rule floor_log2_eqI)
  have u: "0 < ?u" by simp
  have "?r \<le> (x / ?u + 1) * ?u"
    using round_half_even_le[of "x / ?u"] u by (intro mult_right_mono) auto
  also have "\<dots> = x + ?u" using u by (simp add: field_simps)
  also have "?u \<le> 2 powi (e + 1)" by (intro power_int_increasing) auto
  also have "x + 2 powi (e + 1) < 2 powi (e + 1) + 2 powi (e + 1)" using assms(2) by simp
  also have "\<dots> = 2 powi (e + 2)"
    by (simp add: power_int_add)
  also have "\<dots> \<le> 2 powi 1024" using assms(4) by (intro power_int_increasing) auto
  finally have "\<not> 2 powi 1024 \<le> ?r" by simp
  then show ?thesis
    using assms(3) by (simp add: round_pos_def fl Let_def max_def)
qed

lemma round_pos_of_int:
  assumes "0 < k" "k \<le> 2 ^ 53"
  shows "round_pos (of_int k) = Fin (of_int k)"
proof -
  let ?x = "of_int k :: rat"
  let ?e = "floor_log2 ?x"
  have x: "0 < ?x" "1 \<le> ?x" using assms(1) by simp_all
  note b = floor_log2_bounds[OF x(1)]
  have "(2::rat) powi 0 < 2 powi (?e + 1)" using b(2) x(2) by simp
  then have e0: "0 \<le> ?e"
    using power_int_increasing[of "?e + 1" 0 "2::rat"] by force
  have x53: "?x \<le> 2 ^ 53" using assms(2) by (metis of_int_le_iff of_int_numeral of_int_power)
  then have "(2::rat) powi ?e < 2 powi 54" using b(1) by simp
  then have e53: "?e \<le> 53"
    using power_int_increasing[of 54 "?e" "2::rat"] by force
  have "\<exists>j. ?x / 2 powi (?e - 52) = of_int j"
  proof (cases "?e \<le> 52")
    case True
    have "?x / 2 powi (?e - 52) = ?x * 2 powi (52 - ?e)"
      by (simp add: power_int_diff field_simps)
    also have "\<dots> = ?x * 2 ^ nat (52 - ?e)" using True by (simp add: power_int_def)
    also have "\<dots> = of_int (k * 2 ^ nat (52 - ?e))" by simp
    finally show ?thesis by blast
  next
    case False
    then have e: "?e = 53" using e53 by simp
    have top: "?x = 2 ^ 53" using b(1) x53 by (simp add: e)
    have "?x / 2 powi (?e - 52) = ?x / 2" by (simp add: e)
    also have "\<dots> = of_int (2 ^ 52)" unfolding top by simp
    finally show ?thesis by blast
  qed
  then obtain j where j: "?x / 2 powi (?e - 52) = of_int j" ..
  have "round_pos ?x = Fin (of_int (round_half_even (?x / 2 powi (?e - 52))) * 2 powi (?e - 52))"
    using b e0 e53 by (intro round_pos_eq) auto
  also have "of_int (round_half_even (?x / 2 powi (?e - 52))) * 2 powi (?e - 52) = ?x"
    unfolding j round_half_even_of_int unfolding j[symmetric] by simp
  finally show ?thesis .
qed

lemma round_double_of_int:
  assumes "\<bar>k\<bar> \<le> 2 ^ 53"
  shows "round_double (of_int k) = Fin (of_int k)"
proof -
  consider "k = 0" | "0 < k" | "k < 0" by linarith
  then show ?thesis
  proof cases
    case 1 then show ?thesis by (simp add: round_double_def)
  next
    case 2 then show ?thesis using assms round_pos_of_int[of k] by (simp add: round_double_def)
  next
    case 3
    then have "round_pos (of_int (- k)) = Fin (of_int (- k))"
      using assms by (intro round_pos_of_int) auto
    then show ?thesis using 3 by (simp add: round_double_def)
  qed
qed

lemma js_add_of_int:
  assumes "\<bar>a + b\<bar> \<le> 2 ^ 53"
  shows "js_add (Fin (of_int a)) (Fin (of_int b)) = Fin (of_int (a + b))"
  using round_double_of_int[OF assms] by simp

lemma js_add_of_nat_1:
  assumes "n < 2 ^ 53"
  shows "js_add (Fin (of_nat n)) (Fin 1) = Fin (of_nat (Suc n))"
proof -
  have "\<bar>int n + 1\<bar> \<le> 2 ^ 53" using assms by (simp add: nat_less_iff flip: of_nat_Suc) 
  from js_add_of_int[OF this] show ?thesis by (simp add: add.commute)
qed

lemma js_add_comm: "js_add x y = js_add y x"
  by (cases x; cases y) (simp_all add: add.commute)

lemma js_mul_comm: "js_mul x y = js_mul y x"
  by (cases x; cases y) (simp_all add: mult.commute)

lemma double_1_10: "round_double (1 / 10) = Fin (3602879701896397 / 2 ^ 55)"
  unfolding round_double_def
  by (simp, subst round_pos_eq[where e = "- 4"])
     (simp_all add: round_half_even_def Let_def floor_rat_numeral_div)

lemma double_2_10: "round_double (2 / 10) = Fin (3602879701896397 / 2 ^ 54)"
  unfolding round_double_def
  by (simp, subst round_pos_eq[where e = "- 3"])
     (simp_all add: round_half_even_def Let_def floor_rat_numeral_div)

lemma double_3_10: "round_double (3 / 10) = Fin (5404319552844595 / 2 ^ 54)"
  unfolding round_double_def
  by (simp, subst round_pos_eq[where e = "- 2"])
     (simp_all add: round_half_even_def Let_def floor_rat_numeral_div)

section \<open>Facts about the totals\<close>

lemma reduce_foldl: "reduce f acc xs = foldl f acc xs"
  by (induction xs arbitrary: acc) simp_all

lemma reduce_snoc: "reduce f acc (xs @ [x]) = f (reduce f acc xs) x"
  by (induction xs arbitrary: acc) simp_all

lemma whole_iff: "whole x \<longleftrightarrow> (\<exists>k. x = Fin (of_int k))"
  by (cases x) (auto simp: whole_def intro: exI[of _ "\<lfloor>_\<rfloor>"])

lemma sum_magnitude_nonneg: "0 \<le> (\<Sum>it\<leftarrow>its. magnitude (total_item it))"
  by (induction its) (auto simp: magnitude_def split: number.splits)

lemma reduce_whole:
  assumes "\<forall>it \<in> set its. whole (total_item it)"
    and "of_int \<bar>a\<bar> + (\<Sum>it\<leftarrow>its. magnitude (total_item it)) \<le> 2 ^ 53"
  shows "reduce (\<lambda>sum item. js_add sum (total_item item)) (Fin (of_int a)) its
         = Fin (of_int a + (\<Sum>it\<leftarrow>its. exact (total_item it)))"
  using assms
proof (induction its arbitrary: a)
  case Nil
  then show ?case by simp
next
  case (Cons it its)
  from Cons.prems(1) obtain k where k: "total_item it = Fin (of_int k)"
    by (auto simp: whole_iff)
  have rest: "0 \<le> (\<Sum>it\<leftarrow>its. magnitude (total_item it))" by (rule sum_magnitude_nonneg)
  have bound: "rat_of_int \<bar>a\<bar> + rat_of_int \<bar>k\<bar> + (\<Sum>it\<leftarrow>its. magnitude (total_item it)) \<le> 2 ^ 53"
    using Cons.prems(2) by (simp add: k magnitude_def)
  then have "rat_of_int (\<bar>a\<bar> + \<bar>k\<bar>) \<le> 2 ^ 53" using rest by simp
  then have "\<bar>a\<bar> + \<bar>k\<bar> \<le> 2 ^ 53" by (metis of_int_le_iff of_int_numeral of_int_power)
  then have ak: "\<bar>a + k\<bar> \<le> 2 ^ 53" by linarith
  have step: "js_add (Fin (of_int a)) (total_item it) = Fin (of_int (a + k))"
    unfolding k by (rule js_add_of_int[OF ak])
  have "rat_of_int \<bar>a + k\<bar> \<le> rat_of_int \<bar>a\<bar> + rat_of_int \<bar>k\<bar>"
    by (metis abs_triangle_ineq of_int_add of_int_le_iff)
  then have "of_int \<bar>a + k\<bar> + (\<Sum>it\<leftarrow>its. magnitude (total_item it)) \<le> 2 ^ 53"
    using bound by linarith
  with Cons.IH[of "a + k"] Cons.prems(1)
  have ih: "reduce (\<lambda>sum item. js_add sum (total_item item)) (Fin (of_int (a + k))) its
        = Fin (of_int (a + k) + (\<Sum>it\<leftarrow>its. exact (total_item it)))" by simp
  have "reduce (\<lambda>sum item. js_add sum (total_item item)) (Fin (of_int a)) (it # its)
        = reduce (\<lambda>sum item. js_add sum (total_item item))
            (js_add (Fin (of_int a)) (total_item it)) its" by simp
  also have "\<dots> = Fin (of_int (a + k) + (\<Sum>it\<leftarrow>its. exact (total_item it)))"
    unfolding step by (rule ih)
  also have "of_int (a + k) + (\<Sum>it\<leftarrow>its. exact (total_item it))
             = of_int a + (\<Sum>it\<leftarrow>it # its. exact (total_item it))"
    by (simp add: k exact_def)
  finally show ?case .
qed

lemma subTotal_whole:
  assumes "\<forall>it \<in> set its. whole (total_item it)"
    and "(\<Sum>it\<leftarrow>its. magnitude (total_item it)) \<le> 2 ^ 53"
  shows "subTotal (calculateInvoiceTotals its r) = Fin (\<Sum>it\<leftarrow>its. exact (total_item it))"
  using reduce_whole[of its 0] assms by (simp add: calculateInvoiceTotals_def Let_def)

lemma sum_list_mset_cong:
  fixes f :: "'a \<Rightarrow> rat"
  assumes "mset xs = mset ys"
  shows "(\<Sum>x\<leftarrow>xs. f x) = (\<Sum>x\<leftarrow>ys. f x)"
proof -
  have "(\<Sum>x\<leftarrow>xs. f x) = sum_mset (image_mset f (mset xs))"
    by (metis mset_map sum_mset_sum_list)
  also have "\<dots> = sum_mset (image_mset f (mset ys))" by (simp add: assms)
  also have "\<dots> = (\<Sum>x\<leftarrow>ys. f x)" by (metis mset_map sum_mset_sum_list)
  finally show ?thesis .
qed

lemma js_add_Fin_eval:
  assumes "2 powi e \<le> a + b" "a + b < 2 powi (e + 1)" "- 1022 \<le> e" "e \<le> 1022"
  shows "js_add (Fin a) (Fin b)
         = Fin (of_int (round_half_even ((a + b) / 2 powi (e - 52))) * 2 powi (e - 52))"
proof -
  have "(0::rat) < 2 powi e" by simp
  then have "0 < a + b" using assms(1) by linarith
  then show ?thesis using round_pos_eq[OF assms] by (simp add: round_double_def)
qed

lemmas eval_round = round_half_even_def Let_def floor_rat_numeral_div

lemma sum_123:
  "subTotal (calculateInvoiceTotals [tenth 1, tenth 2, tenth 3] (Fin 0)) = Fin (5404319552844596 / 2 ^ 53)"
proof -
  have a: "js_add (Fin 0) (Fin (3602879701896397 / 2 ^ 55)) = Fin (3602879701896397 / 2 ^ 55)"
    by (subst js_add_Fin_eval[where e = "- 4"]; simp add: eval_round)
  have b: "js_add (Fin (3602879701896397 / 2 ^ 55)) (Fin (3602879701896397 / 2 ^ 54))
           = Fin (5404319552844596 / 2 ^ 54)"
    by (subst js_add_Fin_eval[where e = "- 2"]; simp add: eval_round)
  have c: "js_add (Fin (5404319552844596 / 2 ^ 54)) (Fin (5404319552844595 / 2 ^ 54))
           = Fin (5404319552844596 / 2 ^ 53)"
    by (subst js_add_Fin_eval[where e = "- 1"]; simp add: eval_round)
  show ?thesis
    by (simp only: calculateInvoiceTotals_def Let_def tenth_def reduce.simps
          double_1_10 double_2_10 double_3_10 a b c InvoiceItem.simps Totals.simps)
qed

lemma sum_321:
  "subTotal (calculateInvoiceTotals [tenth 3, tenth 2, tenth 1] (Fin 0)) = Fin (5404319552844595 / 2 ^ 53)"
proof -
  have a: "js_add (Fin 0) (Fin (5404319552844595 / 2 ^ 54)) = Fin (5404319552844595 / 2 ^ 54)"
    by (subst js_add_Fin_eval[where e = "- 2"]; simp add: eval_round)
  have b: "js_add (Fin (5404319552844595 / 2 ^ 54)) (Fin (3602879701896397 / 2 ^ 54))
           = Fin (1 / 2)"
    by (subst js_add_Fin_eval[where e = "- 1"]; simp add: eval_round)
  have c: "js_add (Fin (1 / 2)) (Fin (3602879701896397 / 2 ^ 55))
           = Fin (5404319552844595 / 2 ^ 53)"
    by (subst js_add_Fin_eval[where e = "- 1"]; simp add: eval_round)
  show ?thesis
    by (simp only: calculateInvoiceTotals_def Let_def tenth_def reduce.simps
          double_1_10 double_2_10 double_3_10 a b c InvoiceItem.simps Totals.simps)
qed

lemma js_mul_Fin_eval:
  assumes "2 powi e \<le> a * b" "a * b < 2 powi (e + 1)" "- 1022 \<le> e" "e \<le> 1022"
  shows "js_mul (Fin a) (Fin b)
         = Fin (of_int (round_half_even ((a * b) / 2 powi (e - 52))) * 2 powi (e - 52))"
proof -
  have "(0::rat) < 2 powi e" by simp
  then have "0 < a * b" using assms(1) by linarith
  moreover from this have "a \<noteq> 0" "b \<noteq> 0" by auto
  ultimately show ?thesis using round_pos_eq[OF assms] by (simp add: round_double_def)
qed

lemma totals_widget:
  "js_add (Fin 0) (Fin 30) = Fin 30"
  "js_mul (Fin 30) (Fin (3602879701896397 / 2 ^ 55)) = Fin 3"
  "js_add (Fin 30) (Fin 3) = Fin 33"
proof -
  show "js_add (Fin 0) (Fin 30) = Fin 30"
    using js_add_of_int[of 0 30] by simp
  show "js_mul (Fin 30) (Fin (3602879701896397 / 2 ^ 55)) = Fin 3"
    by (subst js_mul_Fin_eval[where e = 1]; simp add: eval_round)
  show "js_add (Fin 30) (Fin 3) = Fin 33"
    using js_add_of_int[of 30 3] by simp
qed

lemma totals_of_widget:
  "subTotal (calculateInvoiceTotals [widget] (round_double (1 / 10))) = Fin 30"
  "taxAmount (calculateInvoiceTotals [widget] (round_double (1 / 10))) = Fin 3"
  "totalAmount (calculateInvoiceTotals [widget] (round_double (1 / 10))) = Fin 33"
  by (simp_all only: calculateInvoiceTotals_def Let_def reduce.simps widget_def
        InvoiceItem.simps Totals.simps double_1_10 totals_widget)

section \<open>Facts about the operations\<close>

lemma addNotification_frame [simp]:
  "customers (addNotification env k msg ty st) = customers st"
  "invoices (addNotification env k msg ty st) = invoices st"
  "settings (addNotification env k msg ty st) = settings st"
  "notifications (addNotification env k msg ty st)
     = notifications st @ [\<lparr>id_notif = generateId env k, message = msg, type_notif = ty\<rparr>]"
  by (simp_all add: addNotification_def)

lemma floor_of_nat_rat [simp]: "\<lfloor>(of_nat n :: rat)\<rfloor> = int n"
  by (metis floor_of_int of_int_of_nat_eq)

lemma numberToString_of_nat:
  assumes "n \<le> 2 ^ 53"
  shows "numberToString other (Fin (of_nat n)) = digits n"
proof -
  have "(of_nat n :: rat) \<le> of_nat (2 ^ 53)" using assms by (simp only: of_nat_le_iff)
  then have "\<bar>of_nat n :: rat\<bar> \<le> 2 ^ 53" by simp
  then show ?thesis by (simp add: numberToString_def intToString_def)
qed

lemma digits_examples:
  "padStart 4 CHR ''0'' (digits 1) = ''0001''"
  "padStart 4 CHR ''0'' (digits 42) = ''0042''"
  "padStart 4 CHR ''0'' (digits 10000) = ''10000''"
  by (simp_all add: padStart_def digits.simps) (simp_all add: eval_nat_numeral)

lemma getNextInvoiceId_examples:
  "getNextInvoiceId env0 0
     \<lparr>invoicePrefix = ''INV-'', nextInvoiceNumber = Fin 1, defaultTaxRate = Fin 0\<rparr>
   = ''INV-2024-0001''"
  "getNextInvoiceId env0 0
     \<lparr>invoicePrefix = ''INV-'', nextInvoiceNumber = Fin 42, defaultTaxRate = Fin 0\<rparr>
   = ''INV-2024-0042''"
  "getNextInvoiceId env0 0
     \<lparr>invoicePrefix = ''INV-'', nextInvoiceNumber = Fin 10000, defaultTaxRate = Fin 0\<rparr>
   = ''INV-2024-10000''"
  by (simp_all add: getNextInvoiceId_def env0_def numberToString_def intToString_def
        padStart_def digits.simps)
     (simp_all add: eval_nat_numeral)

lemma find_acme [simp]:
  "findCustomerById st0 ''c1'' = Some acme" "findCustomerById st0 ''c9'' = None"
  by (simp_all add: findCustomerById_def st0_def acme_def)

lemma find_first_of_distinct:
  assumes "distinct (map f xs)" "find (\<lambda>x. f x = k) xs = Some y" "i < length xs" "f (xs ! i) = k"
  shows "xs ! i = y"
proof -
  from assms(2) have y: "y \<in> set xs" "f y = k"
    by (auto simp: find_Some_iff)
  have "xs ! i \<in> set xs" using assms(3) by simp
  with assms(1) y assms(4) show ?thesis
    by (auto simp: distinct_map inj_on_def)
qed

lemma totals_of_gadget:
  "subTotal (calculateInvoiceTotals [gadget] r) = Fin 45"
  using js_add_of_int[of 0 45] by (simp add: calculateInvoiceTotals_def Let_def gadget_def)

section \<open>Facts about runs\<close>

lemma settings_step:
  "settings (step env op st)
   = (if creates op st
      then (settings st)\<lparr>nextInvoiceNumber := js_add (nextInvoiceNumber (settings st)) (Fin 1)\<rparr>
      else settings st)"
  by (cases op)
     (auto simp: addCustomer_def updateCustomer_def deleteCustomer_def addInvoice_def
        updateInvoice_def deleteInvoice_def Let_def split: option.splits)

lemma run_counter:
  assumes "nextInvoiceNumber (settings st) = Fin (of_nat n)"
    and "n + length (issued ops st) \<le> 2 ^ 53"
  shows "settings (run ops st)
         = (settings st)\<lparr>nextInvoiceNumber := Fin (of_nat (n + length (issued ops st)))\<rparr>
       \<and> issued ops st = map (\<lambda>i. Fin (of_nat i)) [n ..< n + length (issued ops st)]"
  using assms
proof (induction ops arbitrary: st n)
  case Nil
  then show ?case by simp
next
  case (Cons x ops)
  obtain env op where x: "x = (env, op)" by (cases x)
  let ?st = "step env op st"
  show ?case
  proof (cases "creates op st")
    case True
    have len: "length (issued (x # ops) st) = Suc (length (issued ops ?st))"
      using True by (simp add: x)
    have n: "n < 2 ^ 53" using Cons.prems(2) len by simp
    have c: "nextInvoiceNumber (settings ?st) = Fin (of_nat (Suc n))"
      using True Cons.prems(1) js_add_of_nat_1[OF n] by (simp add: settings_step)
    have b: "Suc n + length (issued ops ?st) \<le> 2 ^ 53" using Cons.prems(2) len by simp
    note ih = Cons.IH[OF c b]
    have s: "settings (run (x # ops) st)
             = (settings st)\<lparr>nextInvoiceNumber := Fin (of_nat (n + length (issued (x # ops) st)))\<rparr>"
      using ih True by (simp add: x settings_step del: of_nat_Suc of_nat_add)
    have "issued (x # ops) st = Fin (of_nat n) # issued ops ?st"
      using True Cons.prems(1) by (simp add: x)
    also have "\<dots> = Fin (of_nat n) # map (\<lambda>i. Fin (of_nat i)) [Suc n ..< Suc n + length (issued ops ?st)]"
      using ih by simp
    also have "\<dots> = map (\<lambda>i. Fin (of_nat i)) [n ..< n + length (issued (x # ops) st)]"
      unfolding len by (simp add: upt_conv_Cons del: of_nat_Suc upt_Suc)
    finally show ?thesis using s by simp
  next
    case False
    have len: "length (issued (x # ops) st) = length (issued ops ?st)"
      using False by (simp add: x)
    have c: "nextInvoiceNumber (settings ?st) = Fin (of_nat n)"
      using False Cons.prems(1) by (simp add: settings_step)
    have b: "n + length (issued ops ?st) \<le> 2 ^ 53" using Cons.prems(2) len by simp
    note ih = Cons.IH[OF c b]
    show ?thesis using ih False by (simp add: x settings_step)
  qed
qed

lemma distinct_counters: "distinct (map (\<lambda>i. Fin (of_nat i)) [a ..< b])"
  by (simp add: distinct_map inj_on_def)

lemma step_AddInvoice:
  assumes "findCustomerById st (customerId d) = Some c"
  shows "map id_inv (invoices (step env (AddInvoice d its) st))
         = map id_inv (invoices st) @ [getNextInvoiceId env 0 (settings st)]"
    and "customers (step env (AddInvoice d its) st) = customers st"
  using assms by (simp_all add: addInvoice_def Let_def)

lemma findCustomerById_cong:
  "customers st' = customers st \<Longrightarrow> findCustomerById st' = findCustomerById st"
  by (rule ext) (simp add: findCustomerById_def)

lemma customers_step_invoice [simp]:
  "customers (step env (AddInvoice d its) st) = customers st"
  "customers (step env (UpdateInvoice d its) st) = customers st"
  "customers (step env (DeleteInvoice iid) st) = customers st"
  by (simp_all add: addInvoice_def updateInvoice_def deleteInvoice_def Let_def
        split: option.splits)

lemma length_issued_le: "length (issued ops st) \<le> length ops"
proof (induction ops arbitrary: st)
  case Nil
  then show ?case by simp
next
  case (Cons x ops)
  obtain env op where x: "x = (env, op)" by (cases x)
  from Cons.IH[of "step env op st"] show ?case by (simp add: x)
qed

lemma map_id_replaceCustomer [simp]:
  "map id_cust (replaceCustomer env k u cs) = map id_cust cs"
  by (induction cs arbitrary: k) simp_all

lemma ids_step:
  "map id_cust (customers (step env op st))
   = (case op of
        AddCustomer c \<Rightarrow> map id_cust (customers st) @ [generateId env 0]
      | DeleteCustomer cid \<Rightarrow>
          if \<exists>inv \<in> set (invoices st). customerId inv = cid
          then map id_cust (customers st)
          else filter (\<lambda>i. i \<noteq> cid) (map id_cust (customers st))
      | _ \<Rightarrow> map id_cust (customers st))"
  by (cases op)
     (simp_all add: addCustomer_def updateCustomer_def deleteCustomer_def Let_def
        list_ex_iff filter_map comp_def del: step.simps(4-6))

section \<open>The claims\<close>

subsection \<open>Totals of an invoice\<close>

text \<open>
  C1.  For every list of invoice items and every tax rate, \<open>calculateInvoiceTotals\<close> returns
  as \<open>subTotal\<close> the sum of the items' totals, accumulated from 0 in list order (so it is 0
  for the empty list and grows by the total of each further item), as \<open>taxAmount\<close> the
  product of \<open>subTotal\<close> and the tax rate, and as \<open>totalAmount\<close> the sum of \<open>subTotal\<close> and
  \<open>taxAmount\<close>; sum and product are the additions and multiplications of JavaScript
  numbers.
\<close>

theorem calculateInvoiceTotals_sums:
  "subTotal (calculateInvoiceTotals its r) = foldl js_add (Fin 0) (map total_item its)
   \<and> subTotal (calculateInvoiceTotals [] r) = Fin 0
   \<and> subTotal (calculateInvoiceTotals (its @ [it]) r)
       = js_add (subTotal (calculateInvoiceTotals its r)) (total_item it)
   \<and> taxAmount (calculateInvoiceTotals its r)
       = js_mul (subTotal (calculateInvoiceTotals its r)) r
   \<and> totalAmount (calculateInvoiceTotals its r)
       = js_add (subTotal (calculateInvoiceTotals its r))
           (taxAmount (calculateInvoiceTotals its r))"
  by (simp add: calculateInvoiceTotals_def Let_def reduce_foldl foldl_map)

text \<open>One item of 3 widgets at 10 each, taxed at 0.1: 30, 3 and 33.\<close>

theorem calculateInvoiceTotals_sums_witness:
  "subTotal (calculateInvoiceTotals [widget] (round_double (1 / 10))) = Fin 30
   \<and> taxAmount (calculateInvoiceTotals [widget] (round_double (1 / 10))) = Fin 3
   \<and> totalAmount (calculateInvoiceTotals [widget] (round_double (1 / 10))) = Fin 33"
proof -
  let ?r = "round_double (1 / 10)"
  note b = calculateInvoiceTotals_sums[of "[widget]" ?r widget]
  have t: "total_item widget = Fin 30" by (simp add: widget_def)
  have sub: "subTotal (calculateInvoiceTotals [widget] ?r) = Fin 30"
    using b by (simp only: list.map foldl.simps t totals_widget)
  have tax: "taxAmount (calculateInvoiceTotals [widget] ?r) = Fin 3"
    using b[unfolded sub] by (simp only: double_1_10 totals_widget)
  have tot: "totalAmount (calculateInvoiceTotals [widget] ?r) = Fin 33"
    using b[unfolded sub tax] by (simp only: totals_widget)
  from sub tax tot show ?thesis by simp
qed

subsection \<open>Creating an invoice\<close>

text \<open>
  C2, as the specification states it: every creation increments the counter by exactly 1.
  The counter is a JavaScript number, and \<^verbatim>\<open>s.nextInvoiceNumber + 1\<close> rounds: with the
  counter at \<open>2 ^ 53\<close> (9007199254740992, which the settings page accepts) a creation
  succeeds and leaves the counter where it was.
\<close>

theorem addInvoice_counter_counterexample:
  "findCustomerById st53 (customerId formData) = Some acme
   \<and> nextInvoiceNumber (settings st53) = Fin (2 ^ 53)
   \<and> nextInvoiceNumber (settings (snd (addInvoice env0 formData [widget] st53))) = Fin (2 ^ 53)
   \<and> nextInvoiceNumber (settings (snd (addInvoice env0 formData [widget] st53)))
       \<noteq> Fin (2 ^ 53 + 1)"
proof -
  have f: "findCustomerById st53 (customerId formData) = Some acme"
    by (simp add: findCustomerById_def st53_def st0_def acme_def formData_def)
  have r: "js_add (Fin (2 ^ 53)) (Fin 1) = Fin (2 ^ 53)"
    by (subst js_add_Fin_eval[where e = 53]; simp add: eval_round)
  have c: "nextInvoiceNumber (settings st53) = Fin (2 ^ 53)"
    by (simp add: st53_def)
  have "nextInvoiceNumber (settings (snd (addInvoice env0 formData [widget] st53)))
        = js_add (nextInvoiceNumber (settings st53)) (Fin 1)"
    by (simp add: addInvoice_def f Let_def)
  then have "nextInvoiceNumber (settings (snd (addInvoice env0 formData [widget] st53)))
        = Fin (2 ^ 53)"
    unfolding c r .
  with f c show ?thesis by simp
qed

text \<open>
  C2, amended.  For every call of \<open>addInvoice\<close> whose customer id resolves: the call
  returns the new id and appends one invoice; its id is the settings prefix, the current
  year, a dash and the counter as \<^verbatim>\<open>toString\<close> prints it, with zeros prepended up to 4
  characters (a longer string is kept whole); its customer name is the name of the
  resolved customer; its totals are those of \<open>calculateInvoiceTotals\<close> for the items and
  the tax rate of the call; its status is \<open>Draft\<close> whatever status the form data holds; its
  two timestamps are the clock readings taken for them; and the counter becomes
  \<^verbatim>\<open>nextInvoiceNumber + 1\<close> in JavaScript arithmetic, the rest of the settings staying as
  they are.  When the counter is a whole number \<open>n\<close> with \<open>0 \<le> n < 2 ^ 53\<close>, the new
  counter is exactly \<open>n + 1\<close> and the id ends in the decimal numeral of \<open>n\<close>.
\<close>

theorem addInvoice_creates:
  assumes "findCustomerById st (customerId d) = Some c"
  shows "let r = addInvoice env d its st; st' = snd r; inv = last (invoices st') in
    fst r = Some (id_inv inv)
    \<and> invoices st' = invoices st @ [inv]
    \<and> customers st' = customers st
    \<and> id_inv inv = invoicePrefix (settings st) @ intToString (getFullYear (newDate env 0))
        @ ''-''
        @ padStart 4 CHR ''0''
            (numberToString (toStringOther env) (nextInvoiceNumber (settings st)))
    \<and> customerId inv = customerId d
    \<and> customerName inv = name c
    \<and> items inv = its
    \<and> taxRate inv = taxRate d
    \<and> subTotal inv = subTotal (calculateInvoiceTotals its (taxRate d))
    \<and> taxAmount inv = taxAmount (calculateInvoiceTotals its (taxRate d))
    \<and> totalAmount inv = totalAmount (calculateInvoiceTotals its (taxRate d))
    \<and> status inv = Draft
    \<and> createdAt inv = toISOString (newDate env 1)
    \<and> updatedAt inv = toISOString (newDate env 2)
    \<and> settings st' = (settings st)
         \<lparr>nextInvoiceNumber := js_add (nextInvoiceNumber (settings st)) (Fin 1)\<rparr>
    \<and> (\<forall>n. nextInvoiceNumber (settings st) = Fin (of_nat n) \<longrightarrow> n < 2 ^ 53 \<longrightarrow>
          nextInvoiceNumber (settings st') = Fin (of_nat (n + 1))
          \<and> id_inv inv = invoicePrefix (settings st) @ intToString (getFullYear (newDate env 0))
              @ ''-'' @ replicate (4 - length (digits n)) CHR ''0'' @ digits n)"
proof -
  have s: "numberToString (toStringOther env) (Fin (of_nat n)) = digits n" if "n < 2 ^ 53" for n
    using that by (intro numberToString_of_nat) simp
  have a: "js_add (Fin (of_nat n)) (Fin 1) = Fin (of_nat (n + 1))" if "n < 2 ^ 53" for n
    using js_add_of_nat_1[OF that] by simp
  show ?thesis
    using assms
    by (auto simp: addInvoice_def getNextInvoiceId_def padStart_def Let_def s a
             simp del: js_add.simps of_nat_Suc of_nat_add)
qed

theorem addInvoice_creates_witness:
  "findCustomerById st0 (customerId formData) = Some acme
   \<and> nextInvoiceNumber (settings st0) = Fin (of_nat 1)
   \<and> fst (addInvoice env0 formData [widget] st0) = Some ''INV-2024-0001''
   \<and> map id_inv (invoices (snd (addInvoice env0 formData [widget] st0))) = [''INV-2024-0001'']
   \<and> map customerName (invoices (snd (addInvoice env0 formData [widget] st0))) = [''Acme'']
   \<and> map status (invoices (snd (addInvoice env0 formData [widget] st0))) = [Draft]
   \<and> status formData = Paid
   \<and> map subTotal (invoices (snd (addInvoice env0 formData [widget] st0))) = [Fin 30]
   \<and> map taxAmount (invoices (snd (addInvoice env0 formData [widget] st0))) = [Fin 3]
   \<and> map totalAmount (invoices (snd (addInvoice env0 formData [widget] st0))) = [Fin 33]
   \<and> nextInvoiceNumber (settings (snd (addInvoice env0 formData [widget] st0))) = Fin 2"
proof -
  have f: "findCustomerById st0 (customerId formData) = Some acme"
    by (simp add: formData_def)
  have c: "nextInvoiceNumber (settings st0) = Fin (of_nat 1)"
    by (simp add: st0_def)
  have n: "(1::nat) < 2 ^ 53" by simp
  have t: "taxRate formData = round_double (1 / 10)" "status formData = Paid"
    by (simp_all add: formData_def)
  have y: "invoicePrefix (settings st0) = ''INV-''" "invoices st0 = []"
    "intToString (getFullYear (newDate env0 0)) = ''2024''" "name acme = ''Acme''"
    "replicate (4 - length (digits 1)) CHR ''0'' @ digits 1 = ''0001''"
    by (simp_all add: st0_def env0_def acme_def intToString_def digits.simps)
       (simp add: eval_nat_numeral)
  define st' where "st' = snd (addInvoice env0 formData [widget] st0)"
  define inv where "inv = last (invoices st')"
  note w = addInvoice_creates[OF f, of env0 "[widget]", unfolded Let_def t,
      folded st'_def, folded inv_def]
  from w have i: "invoices st' = [inv]" by (simp add: y)
  from w have k: "nextInvoiceNumber (settings st') = Fin (of_nat (1 + 1))
      \<and> id_inv inv = invoicePrefix (settings st0) @ intToString (getFullYear (newDate env0 0))
          @ ''-'' @ replicate (4 - length (digits 1)) CHR ''0'' @ digits 1"
    using c n by blast
  from k have k': "nextInvoiceNumber (settings st') = Fin 2" "id_inv inv = ''INV-2024-0001''"
    unfolding y by simp_all
  from w have o: "fst (addInvoice env0 formData [widget] st0) = Some (id_inv inv)"
    "customerName inv = ''Acme''" "status inv = Draft"
    "subTotal inv = Fin 30" "taxAmount inv = Fin 3" "totalAmount inv = Fin 33"
    by (simp_all add: y totals_of_widget)
  from f c t(2) i k' o show ?thesis
    unfolding st'_def[symmetric] by simp
qed

text \<open>
  C3.  When the customer id of the form data does not resolve, \<open>addInvoice\<close> fails: it
  returns \<^verbatim>\<open>null\<close> and reports an error, and the invoices, the settings (the counter
  among them) and the customers are what they were.
\<close>

theorem addInvoice_customer_missing:
  assumes "findCustomerById st (customerId d) = None"
  shows "fst (addInvoice env d its st) = None
    \<and> invoices (snd (addInvoice env d its st)) = invoices st
    \<and> settings (snd (addInvoice env d its st)) = settings st
    \<and> customers (snd (addInvoice env d its st)) = customers st
    \<and> notifications (snd (addInvoice env d its st))
        = notifications st @
            [\<lparr>id_notif = generateId env 0, message = ''Customer not found for invoice.'',
              type_notif = Error\<rparr>]"
  using assms by (simp add: addInvoice_def)

theorem addInvoice_customer_missing_witness:
  "findCustomerById st0 (customerId strayData) = None
   \<and> fst (addInvoice env0 strayData [widget] st0) = None
   \<and> invoices (snd (addInvoice env0 strayData [widget] st0)) = []
   \<and> nextInvoiceNumber (settings (snd (addInvoice env0 strayData [widget] st0))) = Fin 1"
proof -
  have h: "findCustomerById st0 (customerId strayData) = None"
    by (simp add: strayData_def formData_def)
  from addInvoice_customer_missing[OF h, of env0 "[widget]"] h show ?thesis
    by (simp add: st0_def)
qed

subsection \<open>The invoice counter\<close>

text \<open>
  C4, as the specification states it: successive creations raise the counter by 1 each and
  no sequence number is ever used again.  With the counter at \<open>2 ^ 53\<close> two creations in a
  row both print 9007199254740992 into their ids and leave the counter unchanged.
\<close>

theorem counter_reuse_counterexample:
  "issued [(env0, AddInvoice formData [widget]), (env0, AddInvoice formData [gadget])] st53
     = [Fin (2 ^ 53), Fin (2 ^ 53)]
   \<and> map id_inv (invoices
        (run [(env0, AddInvoice formData [widget]), (env0, AddInvoice formData [gadget])] st53))
     = [''INV-2024-9007199254740992'', ''INV-2024-9007199254740992'']
   \<and> nextInvoiceNumber (settings
        (run [(env0, AddInvoice formData [widget]), (env0, AddInvoice formData [gadget])] st53))
     = Fin (2 ^ 53)"
proof -
  let ?a = "AddInvoice formData [widget]" and ?b = "AddInvoice formData [gadget]"
  let ?s1 = "step env0 ?a st53"
  let ?s2 = "step env0 ?b ?s1"
  have f: "findCustomerById st53 (customerId formData) = Some acme"
    by (simp add: findCustomerById_def st53_def st0_def acme_def formData_def)
  have r: "js_add (Fin (2 ^ 53)) (Fin 1) = Fin (2 ^ 53)"
    by (subst js_add_Fin_eval[where e = 53]; simp add: eval_round)
  from r have r: "js_add (Fin 9007199254740992) (Fin 1) = Fin 9007199254740992" by simp
  have c0: "nextInvoiceNumber (settings st53) = Fin (2 ^ 53)" by (simp add: st53_def)
  have s1: "settings ?s1 = settings st53"
    using f unfolding settings_step by (simp add: c0 r del: js_add.simps)
  have k1: "customers ?s1 = customers st53" using f by (rule step_AddInvoice)
  have f1: "findCustomerById ?s1 (customerId formData) = Some acme"
    using f findCustomerById_cong[OF k1] by simp
  have s2: "settings ?s2 = settings st53"
    using f1 unfolding settings_step by (simp add: s1 c0 r del: js_add.simps)
  have g: "getNextInvoiceId env0 0 (settings st53) = ''INV-2024-9007199254740992''"
    by (simp add: getNextInvoiceId_def st53_def st0_def env0_def numberToString_def
          intToString_def padStart_def digits.simps)
  have i0: "invoices st53 = []" by (simp add: st53_def st0_def)
  have i1: "map id_inv (invoices ?s1) = [''INV-2024-9007199254740992'']"
    using step_AddInvoice(1)[OF f, of env0 "[widget]"] by (simp add: g i0)
  have i2: "map id_inv (invoices ?s2)
            = [''INV-2024-9007199254740992'', ''INV-2024-9007199254740992'']"
    using step_AddInvoice(1)[OF f1, of env0 "[gadget]"] i1 s1 g by simp
  have "issued [(env0, ?a), (env0, ?b)] st53 = [Fin (2 ^ 53), Fin (2 ^ 53)]"
    using f f1 s1 c0 by simp
  moreover have "run [(env0, ?a), (env0, ?b)] st53 = ?s2" by simp
  ultimately show ?thesis using i2 s2 c0 by simp
qed

text \<open>
  C4, amended.  The settings change only in a step that creates an invoice, and then only
  in the counter, which becomes \<^verbatim>\<open>nextInvoiceNumber + 1\<close> in JavaScript arithmetic:
  exactly 1 more when it is a whole number below \<open>2 ^ 53\<close>; updating or deleting an
  invoice never changes them.  So along every sequence of registry operations that starts
  with the counter at a whole number \<open>n\<close> and in which \<open>n\<close> plus the number of creations
  stays within \<open>2 ^ 53\<close>, the counter after \<open>k\<close> creations is \<open>n + k\<close>, whatever updates
  and deletions of invoices and customers happened in between, and the sequence numbers
  printed into the ids were \<open>n, n + 1, ..., n + k - 1\<close>, each used once.
\<close>

theorem counter_run:
  assumes "nextInvoiceNumber (settings st) = Fin (of_nat n)"
    and "n + length (issued ops st) \<le> 2 ^ 53"
  shows "settings (run ops st)
         = (settings st)\<lparr>nextInvoiceNumber := Fin (of_nat (n + length (issued ops st)))\<rparr>
    \<and> issued ops st = map (\<lambda>i. Fin (of_nat i)) [n ..< n + length (issued ops st)]
    \<and> distinct (issued ops st)
    \<and> (\<forall>env op s. \<not> creates op s \<longrightarrow> settings (step env op s) = settings s)
    \<and> (\<forall>env op s. creates op s \<longrightarrow>
          settings (step env op s) = (settings s)
            \<lparr>nextInvoiceNumber := js_add (nextInvoiceNumber (settings s)) (Fin 1)\<rparr>)
    \<and> (\<forall>env d its s. settings (updateInvoice env d its s) = settings s)
    \<and> (\<forall>env iid s. settings (deleteInvoice env iid s) = settings s)
    \<and> (\<forall>env op s m. creates op s \<longrightarrow> nextInvoiceNumber (settings s) = Fin (of_nat m) \<longrightarrow>
          m < 2 ^ 53 \<longrightarrow>
          settings (step env op s) = (settings s)\<lparr>nextInvoiceNumber := Fin (of_nat (m + 1))\<rparr>)"
proof -
  note r = run_counter[OF assms]
  have d: "distinct (issued ops st)"
    using r distinct_counters[of n "n + length (issued ops st)"] by simp
  have u: "settings (updateInvoice env d its s) = settings s" for env d its s
    using settings_step[of env "UpdateInvoice d its" s] by simp
  have e: "settings (deleteInvoice env iid s) = settings s" for env iid s
    using settings_step[of env "DeleteInvoice iid" s] by simp
  have c: "settings (step env op s) = (settings s)\<lparr>nextInvoiceNumber := Fin (of_nat (m + 1))\<rparr>"
    if "creates op s" "nextInvoiceNumber (settings s) = Fin (of_nat m)" "m < 2 ^ 53"
    for env op s m
    using that js_add_of_nat_1[OF that(3)] by (simp add: settings_step)
  have g: "settings (step env op s) = (settings s)
      \<lparr>nextInvoiceNumber := js_add (nextInvoiceNumber (settings s)) (Fin 1)\<rparr>"
    if "creates op s" for env op s
    using that by (simp add: settings_step)
  have f: "settings (step env op s) = settings s" if "\<not> creates op s" for env op s
    using that by (simp add: settings_step)
  from r d u e c g f show ?thesis by blast
qed

theorem counter_run_witness:
  "nextInvoiceNumber (settings st0) = Fin (of_nat 1)
   \<and> issued day st0 = [Fin 1, Fin 2]
   \<and> nextInvoiceNumber (settings (run day st0)) = Fin 3"
proof -
  have c: "nextInvoiceNumber (settings st0) = Fin (of_nat 1)" by (simp add: st0_def)
  have "length (issued day st0) \<le> 5"
    using length_issued_le[of day st0] by (simp add: day_def)
  then have b: "1 + length (issued day st0) \<le> 2 ^ 53" by simp
  have "customers st0 = [acme]" by (simp add: st0_def)
  then have l: "length (issued day st0) = 2"
    by (simp add: day_def findCustomerById_def strayData_def formData_def acme_def
          del: step.simps)
  from counter_run[OF c b] c show ?thesis
    unfolding l by (simp add: upt_conv_Cons del: upt_Suc)
qed

subsection \<open>Customer ids\<close>

text \<open>
  C5.  No two customers of a reachable state share an id, and the id of a customer never
  changes.  The second half holds of every operation (\<open>ids_step\<close> above: adding appends
  the generated id, a deletion that goes through removes the given id, and every other
  operation leaves the sequence of ids as it is).  The first half is what the source
  promises of \<^verbatim>\<open>generateId\<close>, its "helper to generate unique IDs", and does not keep:
  the id is \<^verbatim>\<open>Math.random().toString(36).substr(2, 9)\<close>, and \<open>addCustomer\<close> stores it
  without comparing it with the ids in the registry.  When \<^verbatim>\<open>generateId\<close> answers
  \<open>''i''\<close> twice (the string it makes of 0.5), the registry that was empty holds two
  customers with that id.
\<close>

theorem addCustomer_id_collision:
  "customers emptyState = []
   \<and> map id_cust (customers (run [(env0, AddCustomer acme), (env0, AddCustomer acme)] emptyState))
       = [''i'', ''i'']
   \<and> \<not> distinct (map id_cust
         (customers (run [(env0, AddCustomer acme), (env0, AddCustomer acme)] emptyState)))"
  by (simp add: emptyState_def st0_def addCustomer_def env0_def Let_def)

subsection \<open>Order of the items\<close>

text \<open>
  C6, as the specification states it: the \<open>subTotal\<close> is the same for every permutation of
  the item list.  It is not: the sum is accumulated left to right in binary floating
  point, where each addition rounds.  For the items priced 0.1, 0.2 and 0.3 the result is
  0.6000000000000001, and 0.6 for the same items in reverse order.
\<close>

theorem subTotal_permutation_counterexample:
  "mset [tenth 3, tenth 2, tenth 1] = mset [tenth 1, tenth 2, tenth 3]
   \<and> subTotal (calculateInvoiceTotals [tenth 3, tenth 2, tenth 1] (Fin 0))
       \<noteq> subTotal (calculateInvoiceTotals [tenth 1, tenth 2, tenth 3] (Fin 0))"
  by (simp add: sum_123 sum_321 add.commute)

text \<open>
  C6, amended.  When every item total is a whole number and the magnitudes of the totals
  add up to at most \<open>2 ^ 53\<close>, no addition rounds: the \<open>subTotal\<close> is the exact sum of
  the totals, and it is the same for every permutation of the item list.
\<close>

theorem subTotal_whole_permutation:
  assumes "\<forall>it \<in> set its. whole (total_item it)"
    and "(\<Sum>it\<leftarrow>its. magnitude (total_item it)) \<le> 2 ^ 53"
    and "mset its' = mset its"
  shows "subTotal (calculateInvoiceTotals its' r) = subTotal (calculateInvoiceTotals its r)
         \<and> subTotal (calculateInvoiceTotals its r) = Fin (\<Sum>it\<leftarrow>its. exact (total_item it))"
proof -
  have s: "set its' = set its" using assms(3) by (rule mset_eq_setD)
  have m: "(\<Sum>it\<leftarrow>its'. magnitude (total_item it)) = (\<Sum>it\<leftarrow>its. magnitude (total_item it))"
    using assms(3) by (rule sum_list_mset_cong)
  have e: "(\<Sum>it\<leftarrow>its'. exact (total_item it)) = (\<Sum>it\<leftarrow>its. exact (total_item it))"
    using assms(3) by (rule sum_list_mset_cong)
  have "subTotal (calculateInvoiceTotals its' r) = Fin (\<Sum>it\<leftarrow>its'. exact (total_item it))"
    using assms(1,2) s m by (intro subTotal_whole) auto
  moreover have "subTotal (calculateInvoiceTotals its r) = Fin (\<Sum>it\<leftarrow>its. exact (total_item it))"
    using assms(1,2) by (rule subTotal_whole)
  ultimately show ?thesis by (simp add: e)
qed

theorem subTotal_whole_permutation_witness:
  "whole (total_item widget) \<and> whole (total_item gadget)
   \<and> magnitude (total_item widget) + magnitude (total_item gadget) \<le> 2 ^ 53
   \<and> mset [gadget, widget] = mset [widget, gadget]
   \<and> subTotal (calculateInvoiceTotals [gadget, widget] (Fin 0))
       = subTotal (calculateInvoiceTotals [widget, gadget] (Fin 0))
   \<and> subTotal (calculateInvoiceTotals [widget, gadget] (Fin 0)) = Fin 75"
proof -
  have w: "\<forall>it \<in> set [widget, gadget]. whole (total_item it)"
    by (simp add: widget_def gadget_def whole_def)
  have m: "(\<Sum>it\<leftarrow>[widget, gadget]. magnitude (total_item it)) \<le> 2 ^ 53"
    by (simp add: widget_def gadget_def magnitude_def)
  have p: "mset [gadget, widget] = mset [widget, gadget]" by (simp add: add.commute)
  from subTotal_whole_permutation[OF w m p, of "Fin 0"] w m p show ?thesis
    by (simp add: widget_def gadget_def exact_def)
qed

subsection \<open>Updating an invoice\<close>

text \<open>
  C7.  When the customer id of the form data resolves and an invoice with the id of the
  form data is stored, \<open>updateInvoice\<close> replaces every stored record of that id by one
  record that carries the creation timestamp of the original invoice (the first stored
  record of that id; the one at the same place when ids are distinct), the clock reading
  of the update as \<open>updatedAt\<close> and the totals that \<open>calculateInvoiceTotals\<close> gives for the
  new items and tax rate; the other records stay as they are.  When no invoice with that
  id is stored, the update fails: an error is reported and invoices, customers and
  settings are what they were.
\<close>

theorem updateInvoice_replaces:
  "(findCustomerById st (customerId u) = Some c \<longrightarrow>
    find (\<lambda>inv. id_inv inv = id_inv u) (invoices st) = Some orig \<longrightarrow>
      (let st' = updateInvoice env u its st in
         length (invoices st') = length (invoices st)
         \<and> (\<forall>i < length (invoices st).
               (id_inv (invoices st ! i) \<noteq> id_inv u \<longrightarrow> invoices st' ! i = invoices st ! i)
             \<and> (id_inv (invoices st ! i) = id_inv u \<longrightarrow>
                   createdAt (invoices st' ! i) = createdAt orig
                 \<and> updatedAt (invoices st' ! i) = toISOString (newDate env 0)
                 \<and> subTotal (invoices st' ! i) = subTotal (calculateInvoiceTotals its (taxRate u))
                 \<and> taxAmount (invoices st' ! i) = taxAmount (calculateInvoiceTotals its (taxRate u))
                 \<and> totalAmount (invoices st' ! i)
                     = totalAmount (calculateInvoiceTotals its (taxRate u))
                 \<and> items (invoices st' ! i) = its
                 \<and> customerName (invoices st' ! i) = name c
                 \<and> id_inv (invoices st' ! i) = id_inv u
                 \<and> status (invoices st' ! i) = status u
                 \<and> (distinct (map id_inv (invoices st)) \<longrightarrow>
                       createdAt (invoices st' ! i) = createdAt (invoices st ! i))))
         \<and> customers st' = customers st
         \<and> settings st' = settings st
         \<and> type_notif (last (notifications st')) = Success))
   \<and> (find (\<lambda>inv. id_inv inv = id_inv u) (invoices st) = None \<longrightarrow>
      (let st' = updateInvoice env u its st in
         invoices st' = invoices st
         \<and> customers st' = customers st
         \<and> settings st' = settings st
         \<and> length (notifications st') = Suc (length (notifications st))
         \<and> type_notif (last (notifications st')) = Error))"
proof (intro conjI impI)
  assume c: "findCustomerById st (customerId u) = Some c"
    and o: "find (\<lambda>inv. id_inv inv = id_inv u) (invoices st) = Some orig"
  have d: "createdAt (invoices st ! i) = createdAt orig"
    if "distinct (map id_inv (invoices st))" "i < length (invoices st)"
       "id_inv (invoices st ! i) = id_inv u" for i
    using find_first_of_distinct[OF that(1) o that(2,3)] by simp
  show "let st' = updateInvoice env u its st in
         length (invoices st') = length (invoices st)
         \<and> (\<forall>i < length (invoices st).
               (id_inv (invoices st ! i) \<noteq> id_inv u \<longrightarrow> invoices st' ! i = invoices st ! i)
             \<and> (id_inv (invoices st ! i) = id_inv u \<longrightarrow>
                   createdAt (invoices st' ! i) = createdAt orig
                 \<and> updatedAt (invoices st' ! i) = toISOString (newDate env 0)
                 \<and> subTotal (invoices st' ! i) = subTotal (calculateInvoiceTotals its (taxRate u))
                 \<and> taxAmount (invoices st' ! i) = taxAmount (calculateInvoiceTotals its (taxRate u))
                 \<and> totalAmount (invoices st' ! i)
                     = totalAmount (calculateInvoiceTotals its (taxRate u))
                 \<and> items (invoices st' ! i) = its
                 \<and> customerName (invoices st' ! i) = name c
                 \<and> id_inv (invoices st' ! i) = id_inv u
                 \<and> status (invoices st' ! i) = status u
                 \<and> (distinct (map id_inv (invoices st)) \<longrightarrow>
                       createdAt (invoices st' ! i) = createdAt (invoices st ! i))))
         \<and> customers st' = customers st
         \<and> settings st' = settings st
         \<and> type_notif (last (notifications st')) = Success"
    using d by (simp add: updateInvoice_def c o Let_def)
next
  assume n: "find (\<lambda>inv. id_inv inv = id_inv u) (invoices st) = None"
  show "let st' = updateInvoice env u its st in
         invoices st' = invoices st
         \<and> customers st' = customers st
         \<and> settings st' = settings st
         \<and> length (notifications st') = Suc (length (notifications st))
         \<and> type_notif (last (notifications st')) = Error"
    by (simp add: updateInvoice_def n Let_def split: option.split)
qed

theorem updateInvoice_replaces_witness:
  "findCustomerById st1 (customerId formData) = Some acme
   \<and> find (\<lambda>inv. id_inv inv = id_inv formData) (invoices st1) = Some inv1
   \<and> map createdAt (invoices st1) = [''2024-04-02T08:00:00.000Z'']
   \<and> map updatedAt (invoices st1) = [''2024-04-02T08:00:00.000Z'']
   \<and> map createdAt (invoices (updateInvoice env0 formData [gadget] st1))
       = [''2024-04-02T08:00:00.000Z'']
   \<and> map updatedAt (invoices (updateInvoice env0 formData [gadget] st1))
       = [''2024-05-01T10:00:00.000Z'']
   \<and> map subTotal (invoices (updateInvoice env0 formData [gadget] st1)) = [Fin 45]
   \<and> find (\<lambda>inv. id_inv inv = id_inv (formData\<lparr>id_inv := ''INV-2024-0009''\<rparr>)) (invoices st1)
       = None
   \<and> invoices (updateInvoice env0 (formData\<lparr>id_inv := ''INV-2024-0009''\<rparr>) [gadget] st1)
       = invoices st1"
proof -
  let ?u = "formData\<lparr>id_inv := ''INV-2024-0009''\<rparr>"
  have c: "findCustomerById st1 (customerId formData) = Some acme"
    by (simp add: findCustomerById_def st1_def st0_def acme_def formData_def)
  have o: "find (\<lambda>inv. id_inv inv = id_inv formData) (invoices st1) = Some inv1"
    by (simp add: st1_def inv1_def formData_def)
  have n: "find (\<lambda>inv. id_inv inv = id_inv ?u) (invoices st1) = None"
    by (simp add: st1_def inv1_def)
  have l: "length (invoices st1) = 1" "invoices st1 ! 0 = inv1" "id_inv inv1 = id_inv formData"
    "createdAt inv1 = ''2024-04-02T08:00:00.000Z''"
    "updatedAt inv1 = ''2024-04-02T08:00:00.000Z''"
    "toISOString (newDate env0 0) = ''2024-05-01T10:00:00.000Z''"
    by (simp_all add: st1_def inv1_def formData_def env0_def)
  define st' where "st' = updateInvoice env0 formData [gadget] st1"
  note a = updateInvoice_replaces[of st1 formData acme inv1 env0 "[gadget]",
      THEN conjunct1, rule_format, OF c o, unfolded Let_def, folded st'_def]
  from a have len: "length (invoices st') = 1" by (simp add: l)
  from a have "createdAt (invoices st' ! 0) = ''2024-04-02T08:00:00.000Z''
      \<and> updatedAt (invoices st' ! 0) = ''2024-05-01T10:00:00.000Z''
      \<and> subTotal (invoices st' ! 0) = Fin 45"
    by (simp add: l totals_of_gadget)
  moreover from len have "invoices st' = [invoices st' ! 0]"
    by (cases "invoices st'") simp_all
  ultimately have 1: "map createdAt (invoices st') = [''2024-04-02T08:00:00.000Z'']
      \<and> map updatedAt (invoices st') = [''2024-05-01T10:00:00.000Z'']
      \<and> map subTotal (invoices st') = [Fin 45]"
    by (metis (no_types, lifting) list.simps(8,9))
  note b = updateInvoice_replaces[of st1 ?u acme inv1 env0 "[gadget]",
      THEN conjunct2, rule_format, OF n, unfolded Let_def]
  from b have 2: "invoices (updateInvoice env0 ?u [gadget] st1) = invoices st1" by simp
  have 3: "map createdAt (invoices st1) = [''2024-04-02T08:00:00.000Z'']"
    "map updatedAt (invoices st1) = [''2024-04-02T08:00:00.000Z'']"
    by (simp_all add: st1_def inv1_def)
  from c o n 1 2 3 show ?thesis unfolding st'_def by simp
qed

subsection \<open>Deleting a customer\<close>

text \<open>
  C8.  \<open>deleteCustomer\<close> is rejected when some invoice's \<open>customerId\<close> is the given id:
  an error is reported, and the customers and the invoices are what they were.  When no
  invoice refers to the id, every customer record with that id is removed, the other
  customers and the invoices staying as they are.
\<close>

theorem deleteCustomer_guarded:
  "((\<exists>inv \<in> set (invoices st). customerId inv = cid) \<longrightarrow>
      (let st' = deleteCustomer env cid st in
         customers st' = customers st
         \<and> invoices st' = invoices st
         \<and> settings st' = settings st
         \<and> notifications st' = notifications st @
              [\<lparr>id_notif = generateId env 0,
                message = ''Cannot delete customer with existing invoices.'',
                type_notif = Error\<rparr>]))
   \<and> (\<not> (\<exists>inv \<in> set (invoices st). customerId inv = cid) \<longrightarrow>
      (let st' = deleteCustomer env cid st in
         customers st' = filter (\<lambda>c. id_cust c \<noteq> cid) (customers st)
         \<and> cid \<notin> set (map id_cust (customers st'))
         \<and> invoices st' = invoices st
         \<and> settings st' = settings st
         \<and> type_notif (last (notifications st')) = Success))"
  by (auto simp: deleteCustomer_def list_ex_iff Let_def)

theorem deleteCustomer_guarded_witness:
  "map customerId (invoices st1) = [''c1'']
   \<and> customers (deleteCustomer env0 ''c1'' st1) = customers st1
   \<and> invoices (deleteCustomer env0 ''c1'' st1) = invoices st1
   \<and> map type_notif (notifications (deleteCustomer env0 ''c1'' st1)) = [Error]
   \<and> invoices st0 = []
   \<and> map id_cust (customers st0) = [''c1'']
   \<and> customers (deleteCustomer env0 ''c1'' st0) = []"
proof -
  have r: "\<exists>inv \<in> set (invoices st1). customerId inv = ''c1''"
    by (simp add: st1_def inv1_def)
  have u: "\<not> (\<exists>inv \<in> set (invoices st0). customerId inv = ''c1'')"
    by (simp add: st0_def)
  note a = deleteCustomer_guarded[of st1 "''c1''" env0, THEN conjunct1, rule_format, OF r,
      unfolded Let_def]
  note b = deleteCustomer_guarded[of st0 "''c1''" env0, THEN conjunct2, rule_format, OF u,
      unfolded Let_def]
  have n: "notifications st1 = []" "map customerId (invoices st1) = [''c1'']"
    by (simp_all add: st1_def st0_def inv1_def)
  have c: "invoices st0 = []" "map id_cust (customers st0) = [''c1'']"
    "filter (\<lambda>c. id_cust c \<noteq> ''c1'') (customers st0) = []"
    by (simp_all add: st0_def acme_def)
  from a b n c show ?thesis by simp
qed

subsection \<open>Editing a line item\<close>

text \<open>
  C9.  The form calls \<^verbatim>\<open>handleItemChange\<close> for the quantity and for the unit price with
  the string of the input field, on items whose quantity and unit price are not \<^verbatim>\<open>NaN\<close>:
  the form starts from a quantity of 1 and a unit price of 0 or from stored items, and, as
  the theorem shows, an edit leaves both fields of the item different from \<^verbatim>\<open>NaN\<close>.  For
  every such edit the item's total afterwards is its quantity multiplied by its unit
  price; the string is stored as the number that \<^verbatim>\<open>parseFloat\<close> reads from it, and as 0
  when \<^verbatim>\<open>parseFloat\<close> reads \<^verbatim>\<open>NaN\<close>, so it is never rejected; the other field and the
  other items stay as they are.
\<close>

theorem handleItemChange_total:
  assumes "index < length its"
    and "edit = EditQuantity (StrValue s) \<and> unitPrice (its ! index) \<noteq> NaN
         \<or> edit = EditUnitPrice (StrValue s) \<and> quantity (its ! index) \<noteq> NaN"
  shows "\<exists>its'. handleItemChange env index edit its = Some its'
    \<and> length its' = length its
    \<and> (\<forall>j < length its. j \<noteq> index \<longrightarrow> its' ! j = its ! j)
    \<and> total_item (its' ! index) = js_mul (quantity (its' ! index)) (unitPrice (its' ! index))
    \<and> quantity (its' ! index) \<noteq> NaN
    \<and> unitPrice (its' ! index) \<noteq> NaN
    \<and> (edit = EditQuantity (StrValue s) \<longrightarrow>
          unitPrice (its' ! index) = unitPrice (its ! index)
          \<and> quantity (its' ! index)
              = (if parseFloat env s = NaN then Fin 0 else parseFloat env s))
    \<and> (edit = EditUnitPrice (StrValue s) \<longrightarrow>
          quantity (its' ! index) = quantity (its ! index)
          \<and> unitPrice (its' ! index)
              = (if parseFloat env s = NaN then Fin 0 else parseFloat env s))"
proof -
  have z: "js_or_zero x = x" if "x \<noteq> NaN" for x
    using that by (simp add: js_or_zero_def)
  have p: "(if parseFloat env s = NaN then Fin 0 else parseFloat env s) \<noteq> NaN"
    by simp
  from assms p show ?thesis
    by (auto simp: handleItemChange_def parseIfString_def Let_def z split: if_splits)
qed

theorem handleItemChange_total_witness:
  "quantity gadget \<noteq> NaN \<and> unitPrice gadget \<noteq> NaN
   \<and> map quantity (the (handleItemChange env0 0 (EditQuantity (StrValue ''2.5'')) [gadget]))
     = [Fin (5 / 2)]
   \<and> map total_item (the (handleItemChange env0 0 (EditQuantity (StrValue ''2.5'')) [gadget]))
     = [Fin (45 / 2)]
   \<and> parseFloat env0 ''abc'' = NaN
   \<and> map unitPrice (the (handleItemChange env0 0 (EditUnitPrice (StrValue ''abc'')) [gadget]))
     = [Fin 0]
   \<and> map total_item (the (handleItemChange env0 0 (EditUnitPrice (StrValue ''abc'')) [gadget]))
     = [Fin 0]"
proof -
  have i: "(0::nat) < length [gadget]" by simp
  have g: "quantity gadget \<noteq> NaN" "unitPrice gadget \<noteq> NaN"
    by (simp_all add: gadget_def)
  have ha: "EditQuantity (StrValue ''2.5'') = EditQuantity (StrValue ''2.5'')
              \<and> unitPrice ([gadget] ! 0) \<noteq> NaN
            \<or> EditQuantity (StrValue ''2.5'') = EditUnitPrice (StrValue ''2.5'')
              \<and> quantity ([gadget] ! 0) \<noteq> NaN"
    using g by simp
  have hb: "EditUnitPrice (StrValue ''abc'') = EditQuantity (StrValue ''abc'')
              \<and> unitPrice ([gadget] ! 0) \<noteq> NaN
            \<or> EditUnitPrice (StrValue ''abc'') = EditUnitPrice (StrValue ''abc'')
              \<and> quantity ([gadget] ! 0) \<noteq> NaN"
    using g by simp
  from handleItemChange_total[OF i ha, of env0]
  obtain a where a: "handleItemChange env0 0 (EditQuantity (StrValue ''2.5'')) [gadget] = Some a"
    "length a = 1" "quantity (a ! 0) = Fin (5 / 2)" "unitPrice (a ! 0) = Fin 9"
    "total_item (a ! 0) = js_mul (quantity (a ! 0)) (unitPrice (a ! 0))"
    by (auto simp: env0_def gadget_def)
  from handleItemChange_total[OF i hb, of env0]
  obtain b where b: "handleItemChange env0 0 (EditUnitPrice (StrValue ''abc'')) [gadget] = Some b"
    "length b = 1" "unitPrice (b ! 0) = Fin 0" "quantity (b ! 0) = Fin 5"
    "total_item (b ! 0) = js_mul (quantity (b ! 0)) (unitPrice (b ! 0))"
    by (auto simp: env0_def gadget_def)
  have m: "js_mul (Fin (5 / 2)) (Fin 9) = Fin (45 / 2)"
    by (subst js_mul_Fin_eval[where e = 4]; simp add: eval_round)
  have m0: "js_mul (Fin 5) (Fin 0) = Fin 0" by (simp add: round_double_def)
  from a(2) have la: "a = [a ! 0]" by (cases a) simp_all
  from b(2) have lb: "b = [b ! 0]" by (cases b) simp_all
  have "map quantity a = [Fin (5 / 2)]" "map total_item a = [Fin (45 / 2)]"
    using la a(3,4,5) m by (metis list.simps(8,9))+
  moreover have "map unitPrice b = [Fin 0]" "map total_item b = [Fin 0]"
    using lb b(3,4,5) m0 by (metis list.simps(8,9))+
  moreover have "parseFloat env0 ''abc'' = NaN" by (simp add: env0_def)
  ultimately show ?thesis using g by (simp add: a(1) b(1))
qed

subsection \<open>Deleting an invoice\<close>

text \<open>
  C10.  \<open>deleteInvoice\<close> removes every stored invoice whose id is the given one, all of
  them when several share it, keeps the others in their order, reports success whatever
  the id, and leaves the customers and the settings as they are.
\<close>

theorem deleteInvoice_removes_all:
  "invoices (deleteInvoice env iid st) = filter (\<lambda>inv. id_inv inv \<noteq> iid) (invoices st)
   \<and> iid \<notin> set (map id_inv (invoices (deleteInvoice env iid st)))
   \<and> customers (deleteInvoice env iid st) = customers st
   \<and> settings (deleteInvoice env iid st) = settings st
   \<and> notifications (deleteInvoice env iid st) = notifications st @
        [\<lparr>id_notif = generateId env 0,
          message = ''Invoice '' @ iid @ '' deleted successfully'',
          type_notif = Success\<rparr>]"
  by (auto simp: deleteInvoice_def)

theorem deleteInvoice_removes_all_witness:
  "map id_inv (invoices st2) = [''INV-2024-0001'', ''INV-2024-0002'', ''INV-2024-0001'']
   \<and> map id_inv (invoices (deleteInvoice env0 ''INV-2024-0001'' st2)) = [''INV-2024-0002'']
   \<and> map id_inv (invoices (deleteInvoice env0 ''INV-2024-0007'' st2))
       = [''INV-2024-0001'', ''INV-2024-0002'', ''INV-2024-0001'']
   \<and> map type_notif (notifications (deleteInvoice env0 ''INV-2024-0007'' st2)) = [Success]
   \<and> customers (deleteInvoice env0 ''INV-2024-0001'' st2) = customers st2
   \<and> settings (deleteInvoice env0 ''INV-2024-0001'' st2) = settings st2"
  using deleteInvoice_removes_all[of env0 "''INV-2024-0001''" st2]
    deleteInvoice_removes_all[of env0 "''INV-2024-0007''" st2]
  by (simp add: st2_def st1_def st0_def inv1_def)

end
